theory Spec2Isabelle
  imports Main "HOL-Library.AList" "HOL-Library.Multiset"
begin

section \<open>The domain store of ExerciseTrack2 (storage.js)\<close>

text \<open>
  The object \<^verbatim>\<open>Storage\<close> of \<^verbatim>\<open>storage.js\<close> keeps three collections in
  \<^verbatim>\<open>localStorage\<close>, each as one JSON text under its own key, and every operation is a
  pass "read the whole collection, change it in memory, write the whole collection back".
  The model passes the content of \<^verbatim>\<open>localStorage\<close> explicitly: an operation takes the
  storage and returns what the JavaScript returns or throws, together with the storage it
  leaves behind.
\<close>

subsection \<open>Strings\<close>

text \<open>
  Names are modelled as ASCII strings. \<^verbatim>\<open>String.prototype.toLowerCase\<close> maps the
  letters A to Z to a to z and leaves every other ASCII character alone;
  \<^verbatim>\<open>String.prototype.trim\<close> removes white space and line terminators (space, tab, line
  feed, vertical tab, form feed, carriage return) from both ends.
\<close>

definition lower_char :: "char \<Rightarrow> char" where
  "lower_char c =
     (case map_of (zip ''ABCDEFGHIJKLMNOPQRSTUVWXYZ'' ''abcdefghijklmnopqrstuvwxyz'') c of
        Some l \<Rightarrow> l
      | None \<Rightarrow> c)"

definition toLowerCase :: "string \<Rightarrow> string" where
  "toLowerCase s = map lower_char s"

definition white_space :: "char \<Rightarrow> bool" where
  "white_space c = (c \<in> set [CHR '' '', CHR 0x09, CHR 0x0A, CHR 0x0B, CHR 0x0C, CHR 0x0D])"

definition trim :: "string \<Rightarrow> string" where
  "trim s = rev (dropWhile white_space (rev (dropWhile white_space s)))"

subsection \<open>Data model\<close>

text \<open>
  A shoe is \<^verbatim>\<open>{id, name, retired, imageData, createdAt}\<close>, a workout is
  \<^verbatim>\<open>{id, shoeId, miles, date, createdAt}\<close> with \<^verbatim>\<open>updatedAt\<close> added by an edit.
  Both start with the fields \<open>ident\<close> (the source's \<^verbatim>\<open>id\<close>) and \<open>createdAt\<close>.
  Identifiers are strings; \<^verbatim>\<open>generateId\<close> produces them from a time stamp and a random
  number, both in base 36.
  The type \<open>'n\<close> stands for the numbers of \<^verbatim>\<open>miles\<close>, finite and not
  \<^verbatim>\<open>NaN\<close>: the operations compare them (\<^verbatim>\<open>===\<close>) and add them, nothing else.
\<close>

record entity =
  ident :: string
  createdAt :: string

record shoe = entity +
  name :: string
  retired :: bool
  imageData :: "string option"

record 'n workout = entity +
  shoeId :: string
  miles :: 'n
  date :: string
  updatedAt :: "string option"

text \<open>
  The text stored under a key is described by what the store does with it: the empty string
  is falsy in \<^verbatim>\<open>data ? JSON.parse(data) : []\<close>; any other text either is rejected by
  \<^verbatim>\<open>JSON.parse\<close>, which throws a \<^verbatim>\<open>SyntaxError\<close>, or is the serialization
  \<^verbatim>\<open>JSON.stringify(v)\<close> of a value \<open>v\<close>, which \<^verbatim>\<open>JSON.parse\<close> gives back
  (an array of shoes, of workouts or of identifiers; a text that parses to a value of
  another shape is not modelled).
  \<open>None\<close> is a key that is not set (\<^verbatim>\<open>getItem\<close> returns \<^verbatim>\<open>null\<close>).
  The exceptions are the \<^verbatim>\<open>SyntaxError\<close> of \<^verbatim>\<open>JSON.parse\<close> and the
  \<^verbatim>\<open>Error\<close> that \<^verbatim>\<open>addShoe\<close> throws, with its message.
\<close>

datatype 'a stored = Empty_string | Garbled | Serialized 'a

record 'n storage =
  SHOES :: "shoe list stored option"
  WORKOUTS :: "'n workout list stored option"
  SHOE_ORDER :: "string list stored option"

datatype exn = SyntaxError | Error string

definition JSON_parse :: "'a stored \<Rightarrow> exn + 'a" where
  "JSON_parse data = (case data of Serialized v \<Rightarrow> Inr v | _ \<Rightarrow> Inl SyntaxError)"

text \<open>The result of \<^verbatim>\<open>addWorkout\<close>: \<^verbatim>\<open>{workout, isDuplicate}\<close>.\<close>

record 'n added =
  workout :: "'n workout"
  isDuplicate :: bool

subsection \<open>Shoes\<close>

definition getShoes :: "'n storage \<Rightarrow> exn + shoe list" where
  "getShoes st =
     (case SHOES st of
        None \<Rightarrow> Inr []
      | Some data \<Rightarrow> if data = Empty_string then Inr [] else JSON_parse data)"

definition saveShoes :: "'n storage \<Rightarrow> shoe list \<Rightarrow> 'n storage" where
  "saveShoes st shoes = st\<lparr>SHOES := Some (Serialized shoes)\<rparr>"

definition getShoeById :: "'n storage \<Rightarrow> string \<Rightarrow> exn + shoe option" where
  "getShoeById st i =
     (case getShoes st of
        Inl e \<Rightarrow> Inl e
      | Inr shoes \<Rightarrow> Inr (find (\<lambda>shoe. ident shoe = i) shoes))"

definition saveShoeOrder :: "'n storage \<Rightarrow> string list \<Rightarrow> 'n storage" where
  "saveShoeOrder st order = st\<lparr>SHOE_ORDER := Some (Serialized order)\<rparr>"

definition getShoeOrder :: "'n storage \<Rightarrow> exn + string list" where
  "getShoeOrder st =
     (let fromShoes =
        (case getShoes st of Inl e \<Rightarrow> Inl e | Inr shoes \<Rightarrow> Inr (map ident shoes))
      in (case SHOE_ORDER st of
            None \<Rightarrow> fromShoes
          | Some data \<Rightarrow> if data = Empty_string then fromShoes else JSON_parse data))"

text \<open>
  \<^verbatim>\<open>addShoe(name, imageData)\<close>. The identifier that \<^verbatim>\<open>generateId()\<close> returns and the
  time stamp \<^verbatim>\<open>new Date().toISOString()\<close> come from the environment; they are the
  arguments \<open>newId\<close> and \<open>now\<close>. The shoes are saved before the order is read, so an
  exception of the second read leaves the saved shoes behind.
\<close>

definition addShoe ::
  "'n storage \<Rightarrow> string \<Rightarrow> string \<Rightarrow> string \<Rightarrow> string option \<Rightarrow> (exn + shoe) \<times> 'n storage" where
  "addShoe st newId now nm img =
     (case getShoes st of
        Inl e \<Rightarrow> (Inl e, st)
      | Inr shoes \<Rightarrow>
          if list_ex (\<lambda>shoe. toLowerCase (name shoe) = toLowerCase nm) shoes
          then (Inl (Error ''A shoe with this name already exists''), st)
          else
            let newShoe = \<lparr>ident = newId, createdAt = now, name = trim nm, retired = False,
                            imageData = img\<rparr>;
                st1 = saveShoes st (shoes @ [newShoe])
            in (case getShoeOrder st1 of
                  Inl e \<Rightarrow> (Inl e, st1)
                | Inr order \<Rightarrow> (Inr newShoe, saveShoeOrder st1 (order @ [ident newShoe]))))"

text \<open>
  \<^verbatim>\<open>find\<close> returns the first element that matches, and the assignment to its field
  changes that element of the array: \<open>assign_first\<close> is the array after the assignment.
\<close>

fun assign_first :: "('a \<Rightarrow> bool) \<Rightarrow> ('a \<Rightarrow> 'a) \<Rightarrow> 'a list \<Rightarrow> 'a list" where
  "assign_first P f [] = []"
| "assign_first P f (x # xs) = (if P x then f x # xs else x # assign_first P f xs)"

definition retireShoe :: "'n storage \<Rightarrow> string \<Rightarrow> (exn + unit) \<times> 'n storage" where
  "retireShoe st i =
     (case getShoes st of
        Inl e \<Rightarrow> (Inl e, st)
      | Inr shoes \<Rightarrow>
          (case find (\<lambda>s. ident s = i) shoes of
             Some shoe \<Rightarrow>
               (Inr (), saveShoes st (assign_first (\<lambda>s. ident s = i) (\<lambda>s. s\<lparr>retired := True\<rparr>) shoes))
           | None \<Rightarrow> (Inr (), st)))"

subsection \<open>Workouts\<close>

definition getWorkouts :: "'n storage \<Rightarrow> exn + 'n workout list" where
  "getWorkouts st =
     (case WORKOUTS st of
        None \<Rightarrow> Inr []
      | Some data \<Rightarrow> if data = Empty_string then Inr [] else JSON_parse data)"

definition saveWorkouts :: "'n storage \<Rightarrow> 'n workout list \<Rightarrow> 'n storage" where
  "saveWorkouts st workouts = st\<lparr>WORKOUTS := Some (Serialized workouts)\<rparr>"

definition getWorkoutById :: "'n storage \<Rightarrow> string \<Rightarrow> exn + 'n workout option" where
  "getWorkoutById st i =
     (case getWorkouts st of
        Inl e \<Rightarrow> Inl e
      | Inr workouts \<Rightarrow> Inr (find (\<lambda>w. ident w = i) workouts))"

text \<open>
  \<^verbatim>\<open>miles\<close> is a number (\<^verbatim>\<open>@param {number} miles\<close>); \<^verbatim>\<open>parseFloat\<close> turns its
  argument into a string and reads the number back, which gives the same number. The
  duplicate check compares with the argument as it was passed, the record holds the result
  of \<^verbatim>\<open>parseFloat\<close>.
\<close>

definition parseFloat :: "'n \<Rightarrow> 'n" where
  "parseFloat m = m"

definition addWorkout ::
  "'n storage \<Rightarrow> string \<Rightarrow> string \<Rightarrow> string \<Rightarrow> 'n \<Rightarrow> string \<Rightarrow> (exn + 'n added) \<times> 'n storage" where
  "addWorkout st newId now sid m d =
     (case getWorkouts st of
        Inl e \<Rightarrow> (Inl e, st)
      | Inr workouts \<Rightarrow>
          let dup = list_ex (\<lambda>w. shoeId w = sid \<and> date w = d \<and> miles w = m) workouts;
              newWorkout = \<lparr>ident = newId, createdAt = now, shoeId = sid, miles = parseFloat m,
                               date = d, updatedAt = None\<rparr>
          in (Inr \<lparr>workout = newWorkout, isDuplicate = dup\<rparr>,
              saveWorkouts st (workouts @ [newWorkout])))"

definition updateWorkout ::
  "'n storage \<Rightarrow> string \<Rightarrow> string \<Rightarrow> string \<Rightarrow> 'n \<Rightarrow> string \<Rightarrow> (exn + unit) \<times> 'n storage" where
  "updateWorkout st now i sid m d =
     (case getWorkouts st of
        Inl e \<Rightarrow> (Inl e, st)
      | Inr workouts \<Rightarrow>
          (case find (\<lambda>w. ident w = i) workouts of
             Some w \<Rightarrow>
               (Inr (),
                saveWorkouts st
                  (assign_first (\<lambda>w. ident w = i)
                     (\<lambda>w. w\<lparr>shoeId := sid, miles := parseFloat m, date := d,
                             updatedAt := Some now\<rparr>)
                     workouts))
           | None \<Rightarrow> (Inr (), st)))"

definition deleteWorkout :: "'n storage \<Rightarrow> string \<Rightarrow> (exn + unit) \<times> 'n storage" where
  "deleteWorkout st i =
     (case getWorkouts st of
        Inl e \<Rightarrow> (Inl e, st)
      | Inr workouts \<Rightarrow> (Inr (), saveWorkouts st (filter (\<lambda>w. ident w \<noteq> i) workouts)))"

definition getWorkoutsByShoe :: "'n storage \<Rightarrow> string \<Rightarrow> exn + 'n workout list" where
  "getWorkoutsByShoe st sid =
     (case getWorkouts st of
        Inl e \<Rightarrow> Inl e
      | Inr workouts \<Rightarrow> Inr (filter (\<lambda>w. shoeId w = sid) workouts))"

text \<open>\<^verbatim>\<open>reduce((total, workout) => total + workout.miles, 0)\<close> adds from the left.\<close>

definition getTotalMiles :: "('n::{zero,plus}) storage \<Rightarrow> string \<Rightarrow> exn + 'n" where
  "getTotalMiles st sid =
     (case getWorkoutsByShoe st sid of
        Inl e \<Rightarrow> Inl e
      | Inr workouts \<Rightarrow> Inr (foldl (\<lambda>total w. total + miles w) 0 workouts))"

subsection \<open>Deleting a shoe, the ordered view, reset\<close>

definition deleteShoe :: "'n storage \<Rightarrow> string \<Rightarrow> (exn + bool) \<times> 'n storage" where
  "deleteShoe st i =
     (case getWorkouts st of
        Inl e \<Rightarrow> (Inl e, st)
      | Inr workouts \<Rightarrow>
          if list_ex (\<lambda>w. shoeId w = i) workouts then (Inr False, st)
          else
            (case getShoes st of
               Inl e \<Rightarrow> (Inl e, st)
             | Inr shoes \<Rightarrow>
                 let st1 = saveShoes st (filter (\<lambda>s. ident s \<noteq> i) shoes)
                 in (case getShoeOrder st1 of
                       Inl e \<Rightarrow> (Inl e, st1)
                     | Inr order \<Rightarrow>
                         (Inr True, saveShoeOrder st1 (filter (\<lambda>x. x \<noteq> i) order)))))"
















definition clearAll :: "'n storage \<Rightarrow> 'n storage" where
  "clearAll st = st\<lparr>SHOES := None, WORKOUTS := None, SHOE_ORDER := None\<rparr>"

text \<open>
  For the statement of what \<^verbatim>\<open>getShoesOrdered\<close> returns: the elements of a list in the
  order of their first occurrences, each once.
\<close>

fun first_occurrences :: "'a list \<Rightarrow> 'a list" where
  "first_occurrences [] = []"
| "first_occurrences (x # xs) = x # filter (\<lambda>y. y \<noteq> x) (first_occurrences xs)"


subsection \<open>The mutating operations as values\<close>

text \<open>
  Every operation of \<^verbatim>\<open>Storage\<close> that writes, with its arguments (for \<^verbatim>\<open>addShoe\<close> and
  \<^verbatim>\<open>addWorkout\<close> the generated identifier and the time stamp come first, for
  \<^verbatim>\<open>updateWorkout\<close> the time stamp). \<open>exec\<close> is the storage an operation leaves
  behind, whether it returns or throws.
\<close>

datatype 'n operation =
    AddShoe string string string "string option"
  | RetireShoe string
  | DeleteShoe string
  | SaveShoeOrder "string list"
  | AddWorkout string string string 'n string
  | UpdateWorkout string string string 'n string
  | DeleteWorkout string
  | ClearAll

fun exec :: "'n storage \<Rightarrow> 'n operation \<Rightarrow> 'n storage" where
  "exec st (AddShoe newId now nm img) = snd (addShoe st newId now nm img)"
| "exec st (RetireShoe i) = snd (retireShoe st i)"
| "exec st (DeleteShoe i) = snd (deleteShoe st i)"
| "exec st (SaveShoeOrder order) = saveShoeOrder st order"
| "exec st (AddWorkout newId now sid m d) = snd (addWorkout st newId now sid m d)"
| "exec st (UpdateWorkout now i sid m d) = snd (updateWorkout st now i sid m d)"
| "exec st (DeleteWorkout i) = snd (deleteWorkout st i)"
| "exec st ClearAll = clearAll st"

subsection \<open>Predicates of the properties\<close>

text \<open>Shoe names are unique ignoring case.\<close>

definition names_unique :: "shoe list \<Rightarrow> bool" where
  "names_unique shoes = distinct (map (\<lambda>shoe. toLowerCase (name shoe)) shoes)"

text \<open>
  The order that \<^verbatim>\<open>getShoeOrder\<close> returns contains every current shoe identifier exactly
  once, and nothing else.
\<close>

definition order_exact :: "'n storage \<Rightarrow> bool" where
  "order_exact st =
     (case getShoes st of
        Inl e \<Rightarrow> False
      | Inr shoes \<Rightarrow>
          (case getShoeOrder st of
             Inl e \<Rightarrow> False
           | Inr order \<Rightarrow> distinct order \<and> set order = set (map ident shoes)))"

text \<open>
  The calls under which \<open>order_exact\<close> is kept: \<^verbatim>\<open>addShoe\<close> with an identifier that no
  shoe has, on a storage that holds an order list; \<^verbatim>\<open>saveShoeOrder\<close> with a permutation
  of the current identifiers; every other operation, with any arguments.
\<close>

definition admissible :: "'n storage \<Rightarrow> 'n operation \<Rightarrow> bool" where
  "admissible st op =
     (case op of
        AddShoe newId now nm img \<Rightarrow>
          (case SHOE_ORDER st of Some (Serialized order) \<Rightarrow> True | _ \<Rightarrow> False)
          \<and> (case getShoes st of Inl e \<Rightarrow> False | Inr shoes \<Rightarrow> newId \<notin> set (map ident shoes))
      | SaveShoeOrder order \<Rightarrow>
          (case getShoes st of
             Inl e \<Rightarrow> False
           | Inr shoes \<Rightarrow> distinct order \<and> set order = set (map ident shoes))
      | _ \<Rightarrow> True)"

text \<open>A sequence of calls, each admissible where it is made, and the storage it leaves.\<close>

fun run :: "'n storage \<Rightarrow> 'n operation list \<Rightarrow> 'n storage" where
  "run st [] = st"
| "run st (op # ops) = run (exec st op) ops"

fun admissible_run :: "'n storage \<Rightarrow> 'n operation list \<Rightarrow> bool" where
  "admissible_run st [] = True"
| "admissible_run st (op # ops) = (admissible st op \<and> admissible_run (exec st op) ops)"

subsection \<open>A small store used for the concrete runs\<close>

definition ex_nike :: shoe where
  "ex_nike = \<lparr>ident = ''s1'', createdAt = ''2024-01-01T08:00:00.000Z'', name = ''Nike Air'',
               retired = False, imageData = None\<rparr>"

definition ex_asics :: shoe where
  "ex_asics = \<lparr>ident = ''s2'', createdAt = ''2024-01-02T08:00:00.000Z'', name = ''Asics'',
                retired = False, imageData = None\<rparr>"

definition ex_run :: "int workout" where
  "ex_run = \<lparr>ident = ''w1'', createdAt = ''2024-01-03T08:00:00.000Z'', shoeId = ''s1'',
              miles = 3, date = ''2024-01-03'', updatedAt = None\<rparr>"

definition ex_store :: "int storage" where
  "ex_store = \<lparr>SHOES = Some (Serialized [ex_nike, ex_asics]),
                WORKOUTS = Some (Serialized [ex_run]),
                SHOE_ORDER = Some (Serialized [''s2'', ''s1''])\<rparr>"

definition empty_store :: "int storage" where
  "empty_store = \<lparr>SHOES = None, WORKOUTS = None, SHOE_ORDER = None\<rparr>"

section \<open>Properties\<close>

subsection \<open>Reading back what was saved\<close>

lemma getShoes_saveShoes: "getShoes (saveShoes st shoes) = Inr shoes"
  by (simp add: getShoes_def saveShoes_def JSON_parse_def)

lemma getShoes_saveShoeOrder: "getShoes (saveShoeOrder st order) = getShoes st"
  by (simp add: getShoes_def saveShoeOrder_def)

lemma getShoes_saveWorkouts: "getShoes (saveWorkouts st ws) = getShoes st"
  by (simp add: getShoes_def saveWorkouts_def)

lemma getWorkouts_saveWorkouts: "getWorkouts (saveWorkouts st ws) = Inr ws"
  by (simp add: getWorkouts_def saveWorkouts_def JSON_parse_def)

lemma getWorkouts_saveShoes: "getWorkouts (saveShoes st shoes) = getWorkouts st"
  by (simp add: getWorkouts_def saveShoes_def)

lemma getWorkouts_saveShoeOrder: "getWorkouts (saveShoeOrder st order) = getWorkouts st"
  by (simp add: getWorkouts_def saveShoeOrder_def)

lemma getShoeOrder_saveShoeOrder: "getShoeOrder (saveShoeOrder st order) = Inr order"
  by (simp add: getShoeOrder_def saveShoeOrder_def JSON_parse_def)

lemma getShoeOrder_saveWorkouts: "getShoeOrder (saveWorkouts st ws) = getShoeOrder st"
  by (simp add: getShoeOrder_def saveWorkouts_def getShoes_def)

text \<open>Saving the shoes without the shoes of identifier i changes the order that is read
  only where that order is derived from the shoes.\<close>

lemma getShoeOrder_after_filter:
  assumes "getShoes st = Inr shoes" and "getShoeOrder st = Inr order"
  shows "\<exists>order'. getShoeOrder (saveShoes st (filter (\<lambda>s. ident s \<noteq> i) shoes)) = Inr order'
           \<and> filter (\<lambda>x. x \<noteq> i) order' = filter (\<lambda>x. x \<noteq> i) order"
  using assms
  by (auto simp: getShoeOrder_def getShoes_def saveShoes_def JSON_parse_def filter_map comp_def
           Let_def split: option.splits stored.splits if_splits)

lemma list_ex_set: "list_ex P xs = (\<exists>x\<in>set xs. P x)"
  by (simp add: list_ex_iff)

lemma filter_ident_remove1:
  "distinct (map ident shoes) \<Longrightarrow> s \<in> set shoes \<Longrightarrow>
     filter (\<lambda>x. ident x \<noteq> ident s) shoes = remove1 s shoes"
proof (induction shoes)
  case Nil
  then show ?case by simp
next
  case (Cons a shoes)
  show ?case
  proof (cases "s = a")
    case True
    from Cons.prems have "ident a \<notin> ident ` set shoes" by simp
    then have "\<forall>x\<in>set shoes. ident x \<noteq> ident a" by (metis image_eqI)
    then have "filter (\<lambda>x. ident x \<noteq> ident a) shoes = shoes"
      by (simp add: filter_id_conv)
    with True show ?thesis by simp
  next
    case False
    with Cons.prems have mem: "s \<in> set shoes" by simp
    from Cons.prems have "ident a \<notin> ident ` set shoes" by simp
    with mem have ne: "ident a \<noteq> ident s" by (metis image_eqI)
    with Cons.IH Cons.prems False show ?thesis by simp
  qed
qed

subsection \<open>Deleting a shoe\<close>

lemma deleteShoe_blocked:
  assumes "getWorkouts st = Inr workouts" and "\<exists>w\<in>set workouts. shoeId w = i"
  shows "deleteShoe st i = (Inr False, st)"
  using assms by (simp add: deleteShoe_def list_ex_set)

lemma deleteShoe_removes:
  assumes "getWorkouts st = Inr workouts" and free: "\<not> (\<exists>w\<in>set workouts. shoeId w = i)"
    and sh: "getShoes st = Inr shoes" and ord: "getShoeOrder st = Inr order"
  shows "deleteShoe st i =
           (Inr True,
            st\<lparr>SHOES := Some (Serialized (filter (\<lambda>s. ident s \<noteq> i) shoes)),
               SHOE_ORDER := Some (Serialized (filter (\<lambda>x. x \<noteq> i) order))\<rparr>)"
proof -
  from getShoeOrder_after_filter [OF sh ord, of i] obtain order' where
    o1: "getShoeOrder (saveShoes st (filter (\<lambda>s. ident s \<noteq> i) shoes)) = Inr order'" and
    o2: "filter (\<lambda>x. x \<noteq> i) order' = filter (\<lambda>x. x \<noteq> i) order"
    by blast
  with assms show ?thesis
    by (simp add: deleteShoe_def list_ex_set saveShoes_def saveShoeOrder_def)
qed

text \<open>
  Claim C3. Whenever at least one workout references \<open>i\<close>, \<^verbatim>\<open>deleteShoe(i)\<close> returns
  \<^verbatim>\<open>false\<close> and the storage (shoes, workouts and order) is the one it started from.
  Otherwise it returns \<^verbatim>\<open>true\<close>; the shoes saved are the shoes without those of
  identifier \<open>i\<close>, the order saved is the order without \<open>i\<close>, and the workouts are not
  written. Identifiers being unique, the shoes saved are the shoes without exactly the shoe
  whose identifier is \<open>i\<close>.
\<close>

theorem deleteShoe_blocked_or_removes:
  fixes st :: "'n storage"
  assumes "getWorkouts st = Inr workouts"
  shows "((\<exists>w\<in>set workouts. shoeId w = i) \<longrightarrow> deleteShoe st i = (Inr False, st))
       \<and> (\<not> (\<exists>w\<in>set workouts. shoeId w = i) \<longrightarrow>
            getShoes st = Inr shoes \<longrightarrow> getShoeOrder st = Inr order \<longrightarrow>
              deleteShoe st i =
                (Inr True,
                 st\<lparr>SHOES := Some (Serialized (filter (\<lambda>s. ident s \<noteq> i) shoes)),
                    SHOE_ORDER := Some (Serialized (filter (\<lambda>x. x \<noteq> i) order))\<rparr>)
              \<and> (\<forall>s\<in>set shoes. distinct (map ident shoes) \<longrightarrow> ident s = i \<longrightarrow>
                     filter (\<lambda>s. ident s \<noteq> i) shoes = remove1 s shoes))"
proof (intro conjI impI)
  assume "\<exists>w\<in>set workouts. shoeId w = i"
  with assms show "deleteShoe st i = (Inr False, st)"
    by (rule deleteShoe_blocked)
next
  assume "\<not> (\<exists>w\<in>set workouts. shoeId w = i)"
    and "getShoes st = Inr shoes" and "getShoeOrder st = Inr order"
  with assms
  show "deleteShoe st i =
          (Inr True,
           st\<lparr>SHOES := Some (Serialized (filter (\<lambda>s. ident s \<noteq> i) shoes)),
              SHOE_ORDER := Some (Serialized (filter (\<lambda>x. x \<noteq> i) order))\<rparr>)"
    by (rule deleteShoe_removes)
next
  show "\<forall>s\<in>set shoes. distinct (map ident shoes) \<longrightarrow> ident s = i \<longrightarrow>
          filter (\<lambda>s. ident s \<noteq> i) shoes = remove1 s shoes"
    using filter_ident_remove1 by blast
qed

theorem deleteShoe_blocked_or_removes_witness:
  "deleteShoe ex_store ''s1'' = (Inr False, ex_store)
   \<and> deleteShoe ex_store ''s2'' =
       (Inr True,
        ex_store\<lparr>SHOES := Some (Serialized [ex_nike]), SHOE_ORDER := Some (Serialized [''s1''])\<rparr>)
   \<and> [ex_nike] = remove1 ex_asics [ex_nike, ex_asics]"
  using deleteShoe_blocked_or_removes [of ex_store "[ex_run]" "''s1''"]
    deleteShoe_blocked_or_removes
      [of ex_store "[ex_run]" "''s2''" "[ex_nike, ex_asics]" "[''s2'', ''s1'']"]
  by (simp add: ex_store_def ex_run_def ex_nike_def ex_asics_def getWorkouts_def getShoes_def
        getShoeOrder_def JSON_parse_def)

subsection \<open>Workouts and total miles\<close>

text \<open>
  Claim C4. \<^verbatim>\<open>addWorkout\<close> computes \<^verbatim>\<open>isDuplicate\<close> from the workouts it reads before it
  inserts: the flag is true exactly when one of them has the same \<^verbatim>\<open>shoeId\<close>,
  \<^verbatim>\<open>date\<close> and \<^verbatim>\<open>miles\<close>. Whatever the flag, the new workout is appended and saved.
  A second call with the same shoe, miles and date returns \<^verbatim>\<open>isDuplicate = true\<close>, both
  records are stored, and the total of the shoe has grown by the miles twice.
\<close>

theorem addWorkout_flag_and_persist:
  fixes st :: "('n::{zero,plus}) storage"
  assumes "getWorkouts st = Inr workouts"
  shows "addWorkout st newId now sid m d =
           (Inr \<lparr>workout = \<lparr>ident = newId, createdAt = now, shoeId = sid, miles = m, date = d,
                               updatedAt = None\<rparr>,
                  isDuplicate = (\<exists>w\<in>set workouts. shoeId w = sid \<and> date w = d \<and> miles w = m)\<rparr>,
            st\<lparr>WORKOUTS := Some (Serialized (workouts @
                [\<lparr>ident = newId, createdAt = now, shoeId = sid, miles = m, date = d,
                   updatedAt = None\<rparr>]))\<rparr>)
       \<and> (\<forall>total. getTotalMiles st sid = Inr total \<longrightarrow>
            (case addWorkout (snd (addWorkout st newId now sid m d)) newId' now' sid m d of
               (r, st') \<Rightarrow>
                 r = Inr \<lparr>workout = \<lparr>ident = newId', createdAt = now', shoeId = sid, miles = m,
                                       date = d, updatedAt = None\<rparr>,
                          isDuplicate = True\<rparr>
                 \<and> getWorkouts st' = Inr (workouts @
                       [\<lparr>ident = newId, createdAt = now, shoeId = sid, miles = m, date = d,
                          updatedAt = None\<rparr>,
                        \<lparr>ident = newId', createdAt = now', shoeId = sid, miles = m, date = d,
                          updatedAt = None\<rparr>])
                 \<and> getTotalMiles st' sid = Inr (total + m + m)))"
  using assms
  by (auto simp: addWorkout_def list_ex_set parseFloat_def saveWorkouts_def getWorkouts_def
        JSON_parse_def getTotalMiles_def getWorkoutsByShoe_def Let_def)

theorem addWorkout_flag_and_persist_witness:
  "addWorkout empty_store ''w1'' ''t1'' ''s1'' 3 ''2024-01-01'' =
     (Inr \<lparr>workout = \<lparr>ident = ''w1'', createdAt = ''t1'', shoeId = ''s1'', miles = 3,
                         date = ''2024-01-01'', updatedAt = None\<rparr>,
            isDuplicate = False\<rparr>,
      empty_store\<lparr>WORKOUTS := Some (Serialized
          [\<lparr>ident = ''w1'', createdAt = ''t1'', shoeId = ''s1'', miles = 3,
             date = ''2024-01-01'', updatedAt = None\<rparr>])\<rparr>)
   \<and> (case addWorkout (snd (addWorkout empty_store ''w1'' ''t1'' ''s1'' 3 ''2024-01-01''))
              ''w2'' ''t2'' ''s1'' 3 ''2024-01-01'' of
         (r, st') \<Rightarrow>
           r = Inr \<lparr>workout = \<lparr>ident = ''w2'', createdAt = ''t2'', shoeId = ''s1'', miles = 3,
                                 date = ''2024-01-01'', updatedAt = None\<rparr>,
                    isDuplicate = True\<rparr>
           \<and> getWorkouts st' = Inr
                 [\<lparr>ident = ''w1'', createdAt = ''t1'', shoeId = ''s1'', miles = 3,
                    date = ''2024-01-01'', updatedAt = None\<rparr>,
                  \<lparr>ident = ''w2'', createdAt = ''t2'', shoeId = ''s1'', miles = 3,
                    date = ''2024-01-01'', updatedAt = None\<rparr>]
           \<and> getTotalMiles st' ''s1'' = Inr 6)"
proof -
  have none: "getWorkouts empty_store = Inr []"
    by (simp add: empty_store_def getWorkouts_def)
  then have zero: "getTotalMiles empty_store ''s1'' = Inr 0"
    by (simp add: getTotalMiles_def getWorkoutsByShoe_def)
  have six: "(6::int) = 0 + 3 + 3"
    by simp
  from addWorkout_flag_and_persist
    [OF none, of "''w1''" "''t1''" "''s1''" 3 "''2024-01-01''" "''w2''" "''t2''"] zero
  show ?thesis unfolding six by force
qed

text \<open>
  Claim C7. \<^verbatim>\<open>getTotalMiles(shoeId)\<close> is the sum of \<^verbatim>\<open>miles\<close> over exactly the workouts
  whose \<^verbatim>\<open>shoeId\<close> is the one asked for, added from the left in the order of storage
  starting from 0, and it is 0 when there is none; a workout added for a shoe \<open>a\<close> leaves
  the total of every other shoe \<open>b\<close> as it was. No law of addition is used: the statement
  holds for the numbers of JavaScript as for any others.
\<close>

theorem getTotalMiles_sum_and_frame:
  fixes st :: "('n::{zero,plus}) storage"
  assumes "getWorkouts st = Inr workouts"
  shows "getTotalMiles st sid =
           Inr (foldl (\<lambda>total m. total + m) 0 (map miles (filter (\<lambda>w. shoeId w = sid) workouts)))
       \<and> ((\<forall>w\<in>set workouts. shoeId w \<noteq> sid) \<longrightarrow> getTotalMiles st sid = Inr 0)
       \<and> (a \<noteq> b \<longrightarrow>
            getTotalMiles (snd (addWorkout st newId now a m d)) b = getTotalMiles st b)"
proof (intro conjI impI)
  show "getTotalMiles st sid =
          Inr (foldl (\<lambda>total m. total + m) 0 (map miles (filter (\<lambda>w. shoeId w = sid) workouts)))"
    using assms by (simp add: getTotalMiles_def getWorkoutsByShoe_def foldl_map)
next
  assume "\<forall>w\<in>set workouts. shoeId w \<noteq> sid"
  then have "filter (\<lambda>w. shoeId w = sid) workouts = []"
    by (simp add: filter_empty_conv)
  then show "getTotalMiles st sid = Inr 0"
    using assms by (simp add: getTotalMiles_def getWorkoutsByShoe_def)
next
  assume "a \<noteq> b"
  then show "getTotalMiles (snd (addWorkout st newId now a m d)) b = getTotalMiles st b"
    using assms
    by (simp add: addWorkout_def getTotalMiles_def getWorkoutsByShoe_def
          getWorkouts_saveWorkouts Let_def)
qed

theorem getTotalMiles_sum_and_frame_witness:
  "getTotalMiles ex_store ''s1'' = Inr 3
   \<and> getTotalMiles ex_store ''s2'' = Inr 0
   \<and> getTotalMiles (snd (addWorkout ex_store ''w2'' ''t2'' ''s1'' 5 ''2024-01-04'')) ''s2'' =
       getTotalMiles ex_store ''s2''"
proof -
  have run: "getWorkouts ex_store = Inr [ex_run]"
    by (simp add: ex_store_def getWorkouts_def JSON_parse_def)
  from getTotalMiles_sum_and_frame [OF run, of "''s1''" "''s1''" "''s1''"]
    getTotalMiles_sum_and_frame
      [OF run, of "''s2''" "''s1''" "''s2''" "''w2''" "''t2''" 5 "''2024-01-04''"]
  show ?thesis by (simp add: ex_run_def)
qed

subsection \<open>Editing a workout\<close>

lemma assign_first_nth:
  "k < length xs \<Longrightarrow> P (xs ! k) \<Longrightarrow> (\<forall>j<k. \<not> P (xs ! j)) \<Longrightarrow>
     assign_first P f xs = xs[k := f (xs ! k)]"
proof (induction xs arbitrary: k)
  case Nil
  then show ?case by simp
next
  case (Cons x xs)
  show ?case
  proof (cases k)
    case 0
    with Cons.prems show ?thesis by simp
  next
    case (Suc n)
    with Cons.prems have "\<not> P x" by auto
    moreover from Suc Cons.prems have "assign_first P f xs = xs[n := f (xs ! n)]"
      by (intro Cons.IH) auto
    ultimately show ?thesis using Suc by simp
  qed
qed

lemma find_at_nth: "k < length xs \<Longrightarrow> P (xs ! k) \<Longrightarrow> find P xs \<noteq> None"
  by (metis find_None_iff nth_mem)

text \<open>
  Claim C9. For an identifier that no workout has, \<^verbatim>\<open>updateWorkout\<close> returns without
  throwing and leaves the storage as it was. When the identifier is present,
  the first workout that has it gets the new \<^verbatim>\<open>shoeId\<close>, \<^verbatim>\<open>miles\<close> and
  \<^verbatim>\<open>date\<close> and its \<^verbatim>\<open>updatedAt\<close> is set; every other workout, the other fields of that
  workout, the shoes and the order are unchanged.
\<close>

theorem updateWorkout_absent_or_first:
  fixes st :: "'n storage"
  assumes "getWorkouts st = Inr workouts"
  shows "((\<forall>w\<in>set workouts. ident w \<noteq> i) \<longrightarrow> updateWorkout st now i sid m d = (Inr (), st))
       \<and> (\<forall>k<length workouts.
            ident (workouts ! k) = i \<longrightarrow> (\<forall>j<k. ident (workouts ! j) \<noteq> i) \<longrightarrow>
              updateWorkout st now i sid m d =
                (Inr (),
                 st\<lparr>WORKOUTS := Some (Serialized
                      (workouts[k := (workouts ! k)\<lparr>shoeId := sid, miles := m, date := d,
                                                   updatedAt := Some now\<rparr>]))\<rparr>))"
proof (intro conjI impI allI)
  assume "\<forall>w\<in>set workouts. ident w \<noteq> i"
  then have "find (\<lambda>w. ident w = i) workouts = None"
    by (simp add: find_None_iff)
  with assms show "updateWorkout st now i sid m d = (Inr (), st)"
    by (simp add: updateWorkout_def)
next
  fix k
  assume k: "k < length workouts" and hit: "ident (workouts ! k) = i"
    and first: "\<forall>j<k. ident (workouts ! j) \<noteq> i"
  from k hit have "find (\<lambda>w. ident w = i) workouts \<noteq> None"
    by (rule find_at_nth)
  then obtain w where found: "find (\<lambda>w. ident w = i) workouts = Some w"
    by blast
  from k hit first
  have "assign_first (\<lambda>w. ident w = i)
          (\<lambda>w. w\<lparr>shoeId := sid, miles := parseFloat m, date := d, updatedAt := Some now\<rparr>)
          workouts =
        workouts[k := (workouts ! k)\<lparr>shoeId := sid, miles := parseFloat m, date := d,
                                     updatedAt := Some now\<rparr>]"
    by (intro assign_first_nth) auto
  with assms found
  show "updateWorkout st now i sid m d =
          (Inr (),
           st\<lparr>WORKOUTS := Some (Serialized
                (workouts[k := (workouts ! k)\<lparr>shoeId := sid, miles := m, date := d,
                                             updatedAt := Some now\<rparr>]))\<rparr>)"
    by (simp add: updateWorkout_def saveWorkouts_def parseFloat_def)
qed

theorem updateWorkout_absent_or_first_witness:
  "updateWorkout ex_store ''t9'' ''nope'' ''s2'' 7 ''2024-02-02'' = (Inr (), ex_store)
   \<and> updateWorkout ex_store ''t9'' ''w1'' ''s2'' 7 ''2024-02-02'' =
       (Inr (),
        ex_store\<lparr>WORKOUTS := Some (Serialized
          [\<lparr>ident = ''w1'', createdAt = ''2024-01-03T08:00:00.000Z'', shoeId = ''s2'',
             miles = 7, date = ''2024-02-02'', updatedAt = Some ''t9''\<rparr>])\<rparr>)"
proof -
  have run: "getWorkouts ex_store = Inr [ex_run]"
    by (simp add: ex_store_def getWorkouts_def JSON_parse_def)
  from updateWorkout_absent_or_first
    [OF run, of "''nope''" "''t9''" "''s2''" 7 "''2024-02-02''"]
  have absent: "updateWorkout ex_store ''t9'' ''nope'' ''s2'' 7 ''2024-02-02'' = (Inr (), ex_store)"
    by (simp add: ex_run_def)
  from updateWorkout_absent_or_first
    [OF run, of "''w1''" "''t9''" "''s2''" 7 "''2024-02-02''"]
  have "updateWorkout ex_store ''t9'' ''w1'' ''s2'' 7 ''2024-02-02'' =
       (Inr (),
        ex_store\<lparr>WORKOUTS := Some (Serialized
          [\<lparr>ident = ''w1'', createdAt = ''2024-01-03T08:00:00.000Z'', shoeId = ''s2'',
             miles = 7, date = ''2024-02-02'', updatedAt = Some ''t9''\<rparr>])\<rparr>)"
    by (simp add: ex_run_def)
  with absent show ?thesis by simp
qed

subsection \<open>Retirement\<close>

lemma assign_first_idem:
  "(\<And>x. f (f x) = f x) \<Longrightarrow> (\<And>x. P (f x) = P x) \<Longrightarrow>
     assign_first P f (assign_first P f xs) = assign_first P f xs"
  by (induction xs) auto

lemma find_assign_first:
  "(\<And>x. P (f x) = P x) \<Longrightarrow> (find P (assign_first P f xs) = None) = (find P xs = None)"
  by (induction xs) auto

lemma set_assign_first: "set (assign_first P f xs) \<subseteq> set xs \<union> f ` set xs"
  by (induction xs) auto

lemma retireShoe_twice: "retireShoe (snd (retireShoe st i)) i = retireShoe st i"
proof (cases "getShoes st")
  case (Inl e)
  then show ?thesis by (simp add: retireShoe_def)
next
  case (Inr shoes)
  show ?thesis
  proof (cases "find (\<lambda>s. ident s = i) shoes")
    case None
    with Inr show ?thesis by (simp add: retireShoe_def)
  next
    case (Some shoe)
    let ?shoes' = "assign_first (\<lambda>s. ident s = i) (\<lambda>s. s\<lparr>retired := True\<rparr>) shoes"
    from Some have "find (\<lambda>s. ident s = i) ?shoes' \<noteq> None"
      by (simp add: find_assign_first)
    then obtain shoe' where "find (\<lambda>s. ident s = i) ?shoes' = Some shoe'"
      by blast
    moreover have "assign_first (\<lambda>s. ident s = i) (\<lambda>s. s\<lparr>retired := True\<rparr>) ?shoes' = ?shoes'"
      by (rule assign_first_idem) simp_all
    ultimately show ?thesis using Inr Some
      by (simp add: retireShoe_def getShoes_saveShoes) (simp add: saveShoes_def)
  qed
qed

lemma retireShoe_absent:
  assumes "getShoes st = Inr shoes" and "\<forall>s\<in>set shoes. ident s \<noteq> i"
  shows "retireShoe st i = (Inr (), st)"
proof -
  from assms(2) have "find (\<lambda>s. ident s = i) shoes = None"
    by (simp add: find_None_iff)
  with assms(1) show ?thesis by (simp add: retireShoe_def)
qed

text \<open>What an operation can do to the shoes: every shoe it leaves is a shoe that was there,
  or such a shoe with \<open>retired\<close> set, or the shoe that \<^verbatim>\<open>addShoe\<close> has just made.\<close>

lemma getShoes_addShoe:
  assumes "getShoes st = Inr shoes"
  shows "getShoes (snd (addShoe st newId now nm img)) = Inr shoes
       \<or> getShoes (snd (addShoe st newId now nm img)) =
           Inr (shoes @ [\<lparr>ident = newId, createdAt = now, name = trim nm, retired = False,
                           imageData = img\<rparr>])"
  using assms
  by (auto simp: addShoe_def Let_def getShoes_saveShoes getShoes_saveShoeOrder
        split: sum.splits)

lemma getShoes_retireShoe:
  assumes "getShoes st = Inr shoes"
  shows "getShoes (snd (retireShoe st i)) = Inr shoes
       \<or> getShoes (snd (retireShoe st i)) =
           Inr (assign_first (\<lambda>s. ident s = i) (\<lambda>s. s\<lparr>retired := True\<rparr>) shoes)"
  using assms
  by (auto simp: retireShoe_def getShoes_saveShoes split: option.splits)

lemma getShoes_deleteShoe:
  assumes "getShoes st = Inr shoes"
  shows "getShoes (snd (deleteShoe st i)) = Inr shoes
       \<or> getShoes (snd (deleteShoe st i)) = Inr (filter (\<lambda>s. ident s \<noteq> i) shoes)"
  using assms
  by (auto simp: deleteShoe_def Let_def getShoes_saveShoes getShoes_saveShoeOrder
        split: sum.splits)

lemma getShoes_workout_operations:
  "getShoes (snd (addWorkout st newId now sid m d)) = getShoes st"
  "getShoes (snd (updateWorkout st now i sid m d)) = getShoes st"
  "getShoes (snd (deleteWorkout st i)) = getShoes st"
  by (auto simp: addWorkout_def updateWorkout_def deleteWorkout_def Let_def
        getShoes_saveWorkouts split: sum.splits option.splits)

lemma getShoes_clearAll: "getShoes (clearAll st) = Inr []"
  by (simp add: clearAll_def getShoes_def)

lemma shoes_after_exec:
  assumes "getShoes st = Inr shoes" and "getShoes (exec st op) = Inr shoes'"
    and "s' \<in> set shoes'"
  shows "s' \<in> set shoes \<or> retired s'
       \<or> (\<exists>newId now nm img. op = AddShoe newId now nm img \<and> ident s' = newId)"
proof (cases op)
  case (AddShoe newId now nm img)
  with getShoes_addShoe [OF assms(1), of newId now nm img] assms(2,3)
  show ?thesis by auto
next
  case (RetireShoe i)
  with getShoes_retireShoe [OF assms(1), of i] assms(2,3)
    set_assign_first [of "\<lambda>s. ident s = i" "\<lambda>s. s\<lparr>retired := True\<rparr>" shoes]
  show ?thesis by auto
next
  case (DeleteShoe i)
  with getShoes_deleteShoe [OF assms(1), of i] assms(2,3)
  show ?thesis by auto
next
  case (SaveShoeOrder order)
  with assms show ?thesis by (simp add: getShoes_saveShoeOrder)
next
  case (AddWorkout newId now sid m d)
  with assms show ?thesis by (simp add: getShoes_workout_operations)
next
  case (UpdateWorkout now i sid m d)
  with assms show ?thesis by (simp add: getShoes_workout_operations)
next
  case (DeleteWorkout i)
  with assms show ?thesis by (simp add: getShoes_workout_operations)
next
  case ClearAll
  with assms show ?thesis by (simp add: getShoes_clearAll)
qed

lemma same_ident_same_shoe:
  "distinct (map ident shoes) \<Longrightarrow> s \<in> set shoes \<Longrightarrow> s' \<in> set shoes \<Longrightarrow>
     ident s' = ident s \<Longrightarrow> s' = s"
  by (metis distinct_map inj_onD)

text \<open>
  Claim C8. \<^verbatim>\<open>retireShoe\<close> called twice returns the same and leaves the same storage as
  called once; on an identifier that no shoe has it returns normally and changes nothing.
  No operation of the store takes a shoe out of retirement: with unique identifiers (and
  a fresh one from \<^verbatim>\<open>generateId\<close> for \<^verbatim>\<open>addShoe\<close>), every shoe that an operation leaves
  with the identifier of a retired shoe is retired.
\<close>

theorem retireShoe_idempotent_monotonic:
  fixes st :: "'n storage"
  shows "retireShoe (snd (retireShoe st i)) i = retireShoe st i
       \<and> (getShoes st = Inr shoes \<longrightarrow> (\<forall>s\<in>set shoes. ident s \<noteq> i) \<longrightarrow>
            retireShoe st i = (Inr (), st))
       \<and> (getShoes st = Inr shoes \<longrightarrow> getShoes (exec st op) = Inr shoes' \<longrightarrow>
            distinct (map ident shoes) \<longrightarrow>
            (\<forall>newId now nm img. op = AddShoe newId now nm img \<longrightarrow> newId \<notin> set (map ident shoes)) \<longrightarrow>
            (\<forall>s\<in>set shoes. \<forall>s'\<in>set shoes'. retired s \<longrightarrow> ident s' = ident s \<longrightarrow> retired s'))"
proof (intro conjI impI ballI)
  show "retireShoe (snd (retireShoe st i)) i = retireShoe st i"
    by (rule retireShoe_twice)
next
  assume "getShoes st = Inr shoes" and "\<forall>s\<in>set shoes. ident s \<noteq> i"
  then show "retireShoe st i = (Inr (), st)"
    by (rule retireShoe_absent)
next
  fix s s'
  assume before: "getShoes st = Inr shoes" and after: "getShoes (exec st op) = Inr shoes'"
    and uniq: "distinct (map ident shoes)"
    and fresh: "\<forall>newId now nm img. op = AddShoe newId now nm img \<longrightarrow> newId \<notin> set (map ident shoes)"
    and s: "s \<in> set shoes" and s': "s' \<in> set shoes'"
    and ret: "retired s" and same: "ident s' = ident s"
  from shoes_after_exec [OF before after s']
  consider "s' \<in> set shoes" | "retired s'"
    | newId now nm img where "op = AddShoe newId now nm img" and "ident s' = newId"
    by blast
  then show "retired s'"
  proof cases
    case 1
    with uniq s same have "s' = s" by (simp add: same_ident_same_shoe)
    with ret show ?thesis by simp
  next
    case 2
    then show ?thesis .
  next
    case 3
    with fresh have "ident s' \<notin> set (map ident shoes)" by blast
    with s same show ?thesis by simp
  qed
qed

theorem retireShoe_idempotent_monotonic_witness:
  "retireShoe (snd (retireShoe ex_store ''s1'')) ''s1'' = retireShoe ex_store ''s1''
   \<and> retireShoe ex_store ''zz'' = (Inr (), ex_store)
   \<and> getShoes (exec ex_store (RetireShoe ''s1'')) = Inr [ex_nike\<lparr>retired := True\<rparr>, ex_asics]
   \<and> getShoes (exec (exec ex_store (RetireShoe ''s1'')) (AddShoe ''s3'' ''t3'' ''Brooks'' None)) =
       Inr [ex_nike\<lparr>retired := True\<rparr>, ex_asics,
            \<lparr>ident = ''s3'', createdAt = ''t3'', name = ''Brooks'', retired = False,
               imageData = None\<rparr>]
   \<and> retired (ex_nike\<lparr>retired := True\<rparr>)"
proof -
  let ?st = "exec ex_store (RetireShoe ''s1'')"
  let ?op = "AddShoe ''s3'' ''t3'' ''Brooks'' None :: int operation"
  let ?shoes = "[ex_nike\<lparr>retired := True\<rparr>, ex_asics]"
  let ?shoes' = "[ex_nike\<lparr>retired := True\<rparr>, ex_asics,
            \<lparr>ident = ''s3'', createdAt = ''t3'', name = ''Brooks'', retired = False,
               imageData = None\<rparr>]"
  have start: "getShoes ex_store = Inr [ex_nike, ex_asics]"
    by (simp add: ex_store_def getShoes_def JSON_parse_def)
  have before: "getShoes ?st = Inr ?shoes"
    by (simp add: retireShoe_def start ex_nike_def ex_asics_def getShoes_saveShoes)
  have names: "\<not> list_ex (\<lambda>shoe. toLowerCase (name shoe) = toLowerCase ''Brooks'') ?shoes"
    by (simp add: ex_nike_def ex_asics_def toLowerCase_def lower_char_def)
  have after: "getShoes (exec ?st ?op) = Inr ?shoes'"
    using before names
    by (simp add: addShoe_def Let_def getShoes_saveShoes getShoes_saveShoeOrder trim_def
          white_space_def split: sum.splits)
  from retireShoe_idempotent_monotonic [of ex_store "''s1''"]
  have twice: "retireShoe (snd (retireShoe ex_store ''s1'')) ''s1'' = retireShoe ex_store ''s1''"
    by simp
  from retireShoe_idempotent_monotonic [of ex_store "''zz''" "[ex_nike, ex_asics]"] start
  have absent: "retireShoe ex_store ''zz'' = (Inr (), ex_store)"
    by (simp add: ex_nike_def ex_asics_def)
  from retireShoe_idempotent_monotonic [of ?st _ ?shoes ?op ?shoes'] before after
  have "retired (ex_nike\<lparr>retired := True\<rparr>)"
    by (simp add: ex_nike_def ex_asics_def)
  with twice absent before after show ?thesis by simp
qed


subsection \<open>The ordered view\<close>





lemma first_occurrences_set [simp]: "set (first_occurrences xs) = set xs"
  by (induction xs) auto

lemma first_occurrences_distinct [simp]: "distinct (first_occurrences xs)"
  by (induction xs) auto



















subsection \<open>The order list\<close>

lemma order_exactI:
  "getShoes st = Inr shoes \<Longrightarrow> getShoeOrder st = Inr order \<Longrightarrow> distinct order \<Longrightarrow>
     set order = set (map ident shoes) \<Longrightarrow> order_exact st"
  by (simp add: order_exact_def)

lemma order_exactD:
  assumes "order_exact st"
  obtains shoes order where "getShoes st = Inr shoes" and "getShoeOrder st = Inr order"
    and "distinct order" and "set order = set (map ident shoes)"
  using assms by (auto simp: order_exact_def split: sum.splits)

lemma getShoeOrder_stored: "SHOE_ORDER st = Some (Serialized order) \<Longrightarrow> getShoeOrder st = Inr order"
  by (simp add: getShoeOrder_def JSON_parse_def)

lemma getShoeOrder_saveShoes_stored:
  "SHOE_ORDER st = Some (Serialized order) \<Longrightarrow> getShoeOrder (saveShoes st shoes) = Inr order"
  by (simp add: getShoeOrder_def JSON_parse_def saveShoes_def)

lemma getShoeOrder_same_idents:
  assumes "getShoes st = Inr shoes" and "map ident shoes' = map ident shoes"
  shows "getShoeOrder (saveShoes st shoes') = getShoeOrder st"
  using assms
  by (auto simp: getShoeOrder_def getShoes_def saveShoes_def JSON_parse_def Let_def
        split: option.splits stored.splits if_splits)

lemma ident_assign_first_retired:
  "map ident (assign_first P (\<lambda>s. s\<lparr>retired := True\<rparr>) shoes) = map ident shoes"
  by (induction shoes) auto

lemma getShoeOrder_workout_operations:
  "getShoeOrder (snd (addWorkout st newId now sid m d)) = getShoeOrder st"
  "getShoeOrder (snd (updateWorkout st now i sid m d)) = getShoeOrder st"
  "getShoeOrder (snd (deleteWorkout st i)) = getShoeOrder st"
  by (auto simp: addWorkout_def updateWorkout_def deleteWorkout_def Let_def
        getShoeOrder_saveWorkouts split: sum.splits option.splits)

lemma order_exact_addShoe:
  assumes exact: "order_exact st" and adm: "admissible st (AddShoe newId now nm img)"
  shows "order_exact (snd (addShoe st newId now nm img))"
proof -
  from adm obtain order shoes where stored: "SHOE_ORDER st = Some (Serialized order)"
    and shoes: "getShoes st = Inr shoes" and fresh: "newId \<notin> set (map ident shoes)"
    by (auto simp: admissible_def split: option.splits stored.splits sum.splits)
  from stored have order: "getShoeOrder st = Inr order"
    by (rule getShoeOrder_stored)
  from exact shoes order have dist: "distinct order" and same: "set order = set (map ident shoes)"
    by (auto simp: order_exact_def)
  show ?thesis
  proof (cases "list_ex (\<lambda>shoe. toLowerCase (name shoe) = toLowerCase nm) shoes")
    case True
    with shoes exact show ?thesis by (simp add: addShoe_def)
  next
    case False
    let ?new = "\<lparr>ident = newId, createdAt = now, name = trim nm, retired = False, imageData = img\<rparr>"
    from False shoes stored
    have "snd (addShoe st newId now nm img) =
            saveShoeOrder (saveShoes st (shoes @ [?new])) (order @ [newId])"
      by (simp add: addShoe_def Let_def getShoeOrder_saveShoes_stored)
    moreover have "order_exact (saveShoeOrder (saveShoes st (shoes @ [?new])) (order @ [newId]))"
      using dist same fresh
      by (intro order_exactI [where shoes = "shoes @ [?new]" and order = "order @ [newId]"])
         (simp_all add: getShoes_saveShoeOrder getShoes_saveShoes getShoeOrder_saveShoeOrder)
    ultimately show ?thesis by simp
  qed
qed

lemma order_exact_retireShoe:
  assumes "order_exact st"
  shows "order_exact (snd (retireShoe st i))"
proof -
  from assms obtain shoes order where shoes: "getShoes st = Inr shoes"
    and order: "getShoeOrder st = Inr order"
    and dist: "distinct order" and same: "set order = set (map ident shoes)"
    by (rule order_exactD)
  let ?shoes' = "assign_first (\<lambda>s. ident s = i) (\<lambda>s. s\<lparr>retired := True\<rparr>) shoes"
  show ?thesis
  proof (cases "find (\<lambda>s. ident s = i) shoes")
    case None
    with shoes assms show ?thesis by (simp add: retireShoe_def)
  next
    case (Some shoe)
    with shoes have "snd (retireShoe st i) = saveShoes st ?shoes'"
      by (simp add: retireShoe_def)
    moreover have "map ident ?shoes' = map ident shoes"
      by (rule ident_assign_first_retired)
    with shoes order dist same have "order_exact (saveShoes st ?shoes')"
      by (intro order_exactI [where shoes = ?shoes' and order = order])
         (simp_all add: getShoes_saveShoes getShoeOrder_same_idents)
    ultimately show ?thesis by simp
  qed
qed

lemma order_exact_deleteShoe:
  assumes "order_exact st"
  shows "order_exact (snd (deleteShoe st i))"
proof -
  from assms obtain shoes order where shoes: "getShoes st = Inr shoes"
    and order: "getShoeOrder st = Inr order"
    and dist: "distinct order" and same: "set order = set (map ident shoes)"
    by (rule order_exactD)
  show ?thesis
  proof (cases "getWorkouts st")
    case (Inl e)
    with assms show ?thesis by (simp add: deleteShoe_def)
  next
    case (Inr workouts)
    show ?thesis
    proof (cases "\<exists>w\<in>set workouts. shoeId w = i")
      case True
      with deleteShoe_blocked [OF Inr, of i] assms show ?thesis by simp
    next
      case False
      with deleteShoe_removes [OF Inr _ shoes order, of i]
      have "snd (deleteShoe st i) =
              st\<lparr>SHOES := Some (Serialized (filter (\<lambda>s. ident s \<noteq> i) shoes)),
                 SHOE_ORDER := Some (Serialized (filter (\<lambda>x. x \<noteq> i) order))\<rparr>"
        by simp
      moreover have "order_exact
              (st\<lparr>SHOES := Some (Serialized (filter (\<lambda>s. ident s \<noteq> i) shoes)),
                 SHOE_ORDER := Some (Serialized (filter (\<lambda>x. x \<noteq> i) order))\<rparr>)"
        using dist same
        by (intro order_exactI [where shoes = "filter (\<lambda>s. ident s \<noteq> i) shoes"
              and order = "filter (\<lambda>x. x \<noteq> i) order"])
           (auto simp: getShoes_def getShoeOrder_def JSON_parse_def)
      ultimately show ?thesis by simp
    qed
  qed
qed

lemma order_exact_saveShoeOrder:
  assumes "admissible st (SaveShoeOrder order)"
  shows "order_exact (saveShoeOrder st order)"
  using assms
  by (auto simp: admissible_def order_exact_def getShoes_saveShoeOrder getShoeOrder_saveShoeOrder
        split: sum.splits)

lemma order_exact_clearAll: "order_exact (clearAll st)"
  by (simp add: order_exact_def clearAll_def getShoes_def getShoeOrder_def)

lemma order_exact_same_reads:
  "getShoes st' = getShoes st \<Longrightarrow> getShoeOrder st' = getShoeOrder st \<Longrightarrow>
     order_exact st' = order_exact st"
  unfolding order_exact_def by (simp cong: sum.case_cong)

lemma order_exact_exec:
  assumes "order_exact st" and "admissible st op"
  shows "order_exact (exec st op)"
proof (cases op)
  case (AddShoe newId now nm img)
  with assms show ?thesis by (simp add: order_exact_addShoe)
next
  case (RetireShoe i)
  with assms show ?thesis by (simp add: order_exact_retireShoe)
next
  case (DeleteShoe i)
  with assms show ?thesis by (simp add: order_exact_deleteShoe)
next
  case (SaveShoeOrder order)
  with assms show ?thesis by (simp add: order_exact_saveShoeOrder)
next
  case (AddWorkout newId now sid m d)
  have "order_exact (snd (addWorkout st newId now sid m d)) = order_exact st"
    by (rule order_exact_same_reads)
       (simp_all add: getShoes_workout_operations getShoeOrder_workout_operations)
  with assms AddWorkout show ?thesis by simp
next
  case (UpdateWorkout now i sid m d)
  have "order_exact (snd (updateWorkout st now i sid m d)) = order_exact st"
    by (rule order_exact_same_reads)
       (simp_all add: getShoes_workout_operations getShoeOrder_workout_operations)
  with assms UpdateWorkout show ?thesis by simp
next
  case (DeleteWorkout i)
  have "order_exact (snd (deleteWorkout st i)) = order_exact st"
    by (rule order_exact_same_reads)
       (simp_all add: getShoes_workout_operations getShoeOrder_workout_operations)
  with assms DeleteWorkout show ?thesis by simp
next
  case ClearAll
  then show ?thesis by (simp add: order_exact_clearAll)
qed

lemma order_exact_run:
  "order_exact st \<Longrightarrow> admissible_run st ops \<Longrightarrow> order_exact (run st ops)"
  by (induction ops arbitrary: st) (simp_all add: order_exact_exec)

lemma order_exact_derived:
  assumes "SHOE_ORDER st = None" and "getShoes st = Inr shoes" and "distinct (map ident shoes)"
  shows "order_exact st"
  using assms by (simp add: order_exact_def getShoeOrder_def)

lemma deleteShoe_true_not_in_order:
  assumes "fst (deleteShoe st i) = Inr True"
  shows "\<exists>order'. getShoeOrder (snd (deleteShoe st i)) = Inr order' \<and> i \<notin> set order'"
  using assms
  by (auto simp: deleteShoe_def Let_def getShoeOrder_saveShoeOrder
        split: sum.splits if_splits)

text \<open>
  Claim C2, as amended. \<^verbatim>\<open>getShoeOrder\<close> does not merge: it returns the stored order list
  as it is, and only when none is stored the identifiers of the current shoes. The order
  it returns contains every current shoe identifier exactly once when no order is stored
  and the shoe identifiers are unique, and this is kept by every sequence of operations in
  which \<^verbatim>\<open>addShoe\<close> gets a fresh identifier while an order list is stored and
  \<^verbatim>\<open>saveShoeOrder\<close> gets a permutation of the current identifiers. After a
  \<^verbatim>\<open>deleteShoe(i)\<close> that returns \<^verbatim>\<open>true\<close> the order does not contain \<open>i\<close>.
\<close>

theorem getShoeOrder_stored_or_derived:
  fixes st :: "'n storage"
  shows "(SHOE_ORDER st = Some (Serialized order) \<longrightarrow> getShoeOrder st = Inr order)
       \<and> (SHOE_ORDER st = None \<longrightarrow> getShoes st = Inr shoes \<longrightarrow>
            getShoeOrder st = Inr (map ident shoes)
            \<and> (distinct (map ident shoes) \<longrightarrow> order_exact st))
       \<and> (order_exact st \<longrightarrow> admissible_run st ops \<longrightarrow> order_exact (run st ops))
       \<and> (fst (deleteShoe st i) = Inr True \<longrightarrow>
            (\<exists>order'. getShoeOrder (exec st (DeleteShoe i)) = Inr order' \<and> i \<notin> set order'))"
proof (intro conjI impI)
  assume "SHOE_ORDER st = Some (Serialized order)"
  then show "getShoeOrder st = Inr order"
    by (rule getShoeOrder_stored)
next
  assume "SHOE_ORDER st = None" and "getShoes st = Inr shoes"
  then show "getShoeOrder st = Inr (map ident shoes)"
    by (simp add: getShoeOrder_def)
next
  assume "SHOE_ORDER st = None" and "getShoes st = Inr shoes" and "distinct (map ident shoes)"
  then show "order_exact st"
    by (rule order_exact_derived)
next
  assume "order_exact st" and "admissible_run st ops"
  then show "order_exact (run st ops)"
    by (rule order_exact_run)
next
  assume "fst (deleteShoe st i) = Inr True"
  then show "\<exists>order'. getShoeOrder (exec st (DeleteShoe i)) = Inr order' \<and> i \<notin> set order'"
    using deleteShoe_true_not_in_order [of st i] by simp
qed

theorem getShoeOrder_stored_or_derived_witness:
  "getShoeOrder ex_store = Inr [''s2'', ''s1'']
   \<and> getShoeOrder (ex_store\<lparr>SHOE_ORDER := None\<rparr>) = Inr [''s1'', ''s2'']
   \<and> order_exact (ex_store\<lparr>SHOE_ORDER := None\<rparr>)
   \<and> order_exact (run ex_store
         [AddShoe ''s3'' ''t3'' ''Brooks'' None, DeleteShoe ''s2'',
          SaveShoeOrder [''s3'', ''s1''], RetireShoe ''s1''])
   \<and> (\<exists>order'. getShoeOrder (exec ex_store (DeleteShoe ''s2'')) = Inr order' \<and> ''s2'' \<notin> set order')"
proof -
  let ?ops = "[AddShoe ''s3'' ''t3'' ''Brooks'' None, DeleteShoe ''s2'',
          SaveShoeOrder [''s3'', ''s1''], RetireShoe ''s1''] :: int operation list"
  have stored: "SHOE_ORDER ex_store = Some (Serialized [''s2'', ''s1''])"
    by (simp add: ex_store_def)
  have none: "SHOE_ORDER (ex_store\<lparr>SHOE_ORDER := None\<rparr>) = None"
    by simp
  have shoes: "getShoes (ex_store\<lparr>SHOE_ORDER := None\<rparr>) = Inr [ex_nike, ex_asics]"
    by (simp add: ex_store_def getShoes_def JSON_parse_def)
  have uniq: "distinct (map ident [ex_nike, ex_asics])"
    by (simp add: ex_nike_def ex_asics_def)
  have exact: "order_exact ex_store"
    by code_simp
  have adm: "admissible_run ex_store ?ops"
    by code_simp
  have deleted: "fst (deleteShoe ex_store ''s2'') = Inr True"
    by code_simp
  from getShoeOrder_stored_or_derived [of ex_store "[''s2'', ''s1'']" _ ?ops "''s2''"]
    stored exact adm deleted
  have a: "getShoeOrder ex_store = Inr [''s2'', ''s1'']"
    and c: "order_exact (run ex_store ?ops)"
    and d: "\<exists>order'. getShoeOrder (exec ex_store (DeleteShoe ''s2'')) = Inr order' \<and> ''s2'' \<notin> set order'"
    by blast+
  from getShoeOrder_stored_or_derived
    [of "ex_store\<lparr>SHOE_ORDER := None\<rparr>" _ "[ex_nike, ex_asics]"] none shoes uniq
  have b: "getShoeOrder (ex_store\<lparr>SHOE_ORDER := None\<rparr>) = Inr (map ident [ex_nike, ex_asics])
      \<and> order_exact (ex_store\<lparr>SHOE_ORDER := None\<rparr>)"
    by blast
  from a b c d show ?thesis
    by (simp add: ex_nike_def ex_asics_def)
qed

text \<open>
  The claim as it was stated fails on a store reached from the empty one by
  \<^verbatim>\<open>saveShoeOrder\<close> and \<^verbatim>\<open>addShoe\<close>: the order that is read keeps the identifier of
  no shoe and lacks the identifier of the second shoe.
\<close>

theorem getShoeOrder_not_merged_counterexample:
  "getShoes (run empty_store
      [SaveShoeOrder [], AddShoe ''s1'' ''t1'' ''Nike Air'' None,
       AddShoe ''s2'' ''t2'' ''Asics'' None, SaveShoeOrder [''ghost'', ''s1'']]) =
     Inr [\<lparr>ident = ''s1'', createdAt = ''t1'', name = ''Nike Air'', retired = False,
            imageData = None\<rparr>,
          \<lparr>ident = ''s2'', createdAt = ''t2'', name = ''Asics'', retired = False,
            imageData = None\<rparr>]
   \<and> getShoeOrder (run empty_store
      [SaveShoeOrder [], AddShoe ''s1'' ''t1'' ''Nike Air'' None,
       AddShoe ''s2'' ''t2'' ''Asics'' None, SaveShoeOrder [''ghost'', ''s1'']]) =
     Inr [''ghost'', ''s1'']
   \<and> \<not> order_exact (run empty_store
      [SaveShoeOrder [], AddShoe ''s1'' ''t1'' ''Nike Air'' None,
       AddShoe ''s2'' ''t2'' ''Asics'' None, SaveShoeOrder [''ghost'', ''s1'']])"
  by code_simp

text \<open>
  Not part of the amended claim: on a store where no order list is saved, \<^verbatim>\<open>addShoe\<close>
  saves the shoes first and derives the order from them, so the new identifier is already
  in the order when it is pushed, and is saved twice.
\<close>

lemma addShoe_without_stored_order:
  "getShoeOrder (exec empty_store (AddShoe ''s1'' ''t1'' ''Nike Air'' None)) = Inr [''s1'', ''s1'']"
  by code_simp

subsection \<open>Names\<close>

text \<open>
  Claim C1. The claim wants the trimmed name compared, ignoring case, with the names of
  all shoes. \<^verbatim>\<open>addShoe\<close> compares the name as it was passed and stores the trimmed
  name: with a shoe named "Nike Air" in the store, \<^verbatim>\<open>addShoe(" nike air")\<close> does not
  throw; it stores a second shoe whose name equals the first ignoring case, and the names
  are unique no more.
\<close>

theorem addShoe_untrimmed_name_not_refused:
  "names_unique [ex_nike, ex_asics]
   \<and> addShoe ex_store ''s3'' ''t3'' '' nike air'' None =
       (Inr \<lparr>ident = ''s3'', createdAt = ''t3'', name = ''nike air'', retired = False,
             imageData = None\<rparr>,
        ex_store\<lparr>SHOES := Some (Serialized
            [ex_nike, ex_asics,
             \<lparr>ident = ''s3'', createdAt = ''t3'', name = ''nike air'', retired = False,
                imageData = None\<rparr>]),
          SHOE_ORDER := Some (Serialized [''s2'', ''s1'', ''s3''])\<rparr>)
   \<and> toLowerCase ''nike air'' = toLowerCase (name ex_nike)
   \<and> \<not> names_unique
         [ex_nike, ex_asics,
          \<lparr>ident = ''s3'', createdAt = ''t3'', name = ''nike air'', retired = False,
             imageData = None\<rparr>]"
  by code_simp

subsection \<open>Collections that cannot be read\<close>

text \<open>
  Claim C5, as amended. A collection that is not set, or is the empty text, is read as
  empty (and \<^verbatim>\<open>getShoeOrder\<close> then takes the order from the shoes). Any other text
  that \<^verbatim>\<open>JSON.parse\<close> rejects makes the read throw: \<^verbatim>\<open>getShoes\<close>,
  \<^verbatim>\<open>getWorkouts\<close> and \<^verbatim>\<open>getShoeOrder\<close> let the \<^verbatim>\<open>SyntaxError\<close> through,
  \<^verbatim>\<open>getShoeOrder\<close> also the one of the shoes it falls back to.
\<close>

theorem reads_of_absent_and_garbled_collections:
  fixes st :: "'n storage"
  shows "getShoes (st\<lparr>SHOES := None\<rparr>) = Inr []
       \<and> getShoes (st\<lparr>SHOES := Some Empty_string\<rparr>) = Inr []
       \<and> getShoes (st\<lparr>SHOES := Some Garbled\<rparr>) = Inl SyntaxError
       \<and> getWorkouts (st\<lparr>WORKOUTS := None\<rparr>) = Inr []
       \<and> getWorkouts (st\<lparr>WORKOUTS := Some Empty_string\<rparr>) = Inr []
       \<and> getWorkouts (st\<lparr>WORKOUTS := Some Garbled\<rparr>) = Inl SyntaxError
       \<and> getShoeOrder (st\<lparr>SHOE_ORDER := None\<rparr>) = map_sum id (map ident) (getShoes st)
       \<and> getShoeOrder (st\<lparr>SHOE_ORDER := Some Empty_string\<rparr>) = map_sum id (map ident) (getShoes st)
       \<and> getShoeOrder (st\<lparr>SHOE_ORDER := Some Garbled\<rparr>) = Inl SyntaxError
       \<and> getShoeOrder (st\<lparr>SHOES := Some Garbled, SHOE_ORDER := None\<rparr>) = Inl SyntaxError"
  by (cases "getShoes st")
     (simp_all add: getShoes_def getWorkouts_def getShoeOrder_def JSON_parse_def)

text \<open>
  The claim as it was stated fails on a store whose text under a key does not parse (the
  text \<^verbatim>\<open>[{"id":\<close>, say): the read throws, it does not return the empty array.
\<close>

theorem garbled_collection_counterexample:
  "getShoes (empty_store\<lparr>SHOES := Some Garbled\<rparr>) = Inl SyntaxError
   \<and> getWorkouts (empty_store\<lparr>WORKOUTS := Some Garbled\<rparr>) = Inl SyntaxError
   \<and> getShoeOrder (empty_store\<lparr>SHOE_ORDER := Some Garbled\<rparr>) = Inl SyntaxError
   \<and> getShoes (empty_store\<lparr>SHOES := Some Garbled\<rparr>) \<noteq> Inr []"
  by (simp add: getShoes_def getWorkouts_def getShoeOrder_def JSON_parse_def)

subsection \<open>The shoe of a new workout\<close>

text \<open>
  Claim C6, as amended. \<^verbatim>\<open>addWorkout\<close> never reads the shoes: what it returns and the
  workouts it saves are the same whatever the shoes collection holds. Whenever the
  workouts can be read it returns normally and saves a workout with the \<^verbatim>\<open>shoeId\<close> it
  was given, whether or not a shoe has that identifier.
\<close>

theorem addWorkout_ignores_shoes:
  fixes st :: "'n storage"
  shows "addWorkout (st\<lparr>SHOES := shoesText\<rparr>) newId now sid m d =
           (fst (addWorkout st newId now sid m d),
            (snd (addWorkout st newId now sid m d))\<lparr>SHOES := shoesText\<rparr>)
       \<and> (getWorkouts st = Inr workouts \<longrightarrow>
            (\<exists>r. addWorkout st newId now sid m d = (Inr r, saveWorkouts st (workouts @ [workout r]))
               \<and> shoeId (workout r) = sid))"
  by (auto simp: addWorkout_def getWorkouts_def saveWorkouts_def Let_def split: sum.splits)

theorem addWorkout_ignores_shoes_witness:
  "addWorkout (ex_store\<lparr>SHOES := None\<rparr>) ''w2'' ''t2'' ''s1'' 4 ''2024-01-05'' =
     (fst (addWorkout ex_store ''w2'' ''t2'' ''s1'' 4 ''2024-01-05''),
      (snd (addWorkout ex_store ''w2'' ''t2'' ''s1'' 4 ''2024-01-05''))\<lparr>SHOES := None\<rparr>)
   \<and> (\<exists>r. addWorkout ex_store ''w2'' ''t2'' ''ghost'' 4 ''2024-01-05'' =
              (Inr r, saveWorkouts ex_store ([ex_run] @ [workout r]))
          \<and> shoeId (workout r) = ''ghost'')"
proof -
  have run: "getWorkouts ex_store = Inr [ex_run]"
    by (simp add: ex_store_def getWorkouts_def JSON_parse_def)
  from addWorkout_ignores_shoes
      [where st = ex_store and shoesText = None and newId = "''w2''" and now = "''t2''"
         and sid = "''s1''" and m = 4 and d = "''2024-01-05''"]
    addWorkout_ignores_shoes
      [where st = ex_store and newId = "''w2''" and now = "''t2''" and sid = "''ghost''"
         and m = 4 and d = "''2024-01-05''" and workouts = "[ex_run]"] run
  show ?thesis by blast
qed

text \<open>
  The claim as it was stated fails on the example store: no shoe has the identifier
  \<^verbatim>\<open>ghost\<close>, and \<^verbatim>\<open>addWorkout\<close> returns as it does for any shoe and saves the workout.
\<close>

theorem addWorkout_unknown_shoe_counterexample:
  "getShoes ex_store = Inr [ex_nike, ex_asics]
   \<and> ''ghost'' \<notin> set (map ident [ex_nike, ex_asics])
   \<and> addWorkout ex_store ''w2'' ''t2'' ''ghost'' 4 ''2024-01-05'' =
       (Inr \<lparr>workout = \<lparr>ident = ''w2'', createdAt = ''t2'', shoeId = ''ghost'', miles = 4,
                           date = ''2024-01-05'', updatedAt = None\<rparr>,
              isDuplicate = False\<rparr>,
        ex_store\<lparr>WORKOUTS := Some (Serialized
            [ex_run,
             \<lparr>ident = ''w2'', createdAt = ''t2'', shoeId = ''ghost'', miles = 4,
                date = ''2024-01-05'', updatedAt = None\<rparr>])\<rparr>)"
  by code_simp


end
